theory Spec2Isabelle
  imports Main "HOL-Library.Word"
begin

section \<open>The peer-overlay manager (OverlayImpl.cpp)\<close>

text \<open>
  A shallow embedding of \<^verbatim>\<open>src/ripple/overlay/impl/OverlayImpl.cpp\<close>.

  The manager is one object whose member functions mutate its fields and call
  collaborators (the PeerFinder, the resource manager, the transport, the peers it
  creates, its timer, the journal).  A member function becomes a function from the state
  of the object to its new state.  Every call of a collaborator is appended to the field
  \<open>events\<close> of the state, in program order, and the value the collaborator answers is
  read from a record \<open>env\<close>: within one invocation of an entry point each answer is a
  function of the arguments of the call.  The assertions are taken as compiled in: an
  \<^verbatim>\<open>assert\<close> that fails aborts the process, and the function returns \<open>Inl\<close>
  of the assertion.  The mutex is not modelled: the functions are the critical sections,
  run one at a time.
\<close>

subsection \<open>Values exchanged with the collaborators\<close>

text \<open>\<^verbatim>\<open>Peer::id_t\<close>, an unsigned 32-bit integer: \<^verbatim>\<open>next_id_++\<close> wraps.\<close>
type_synonym id_t = "32 word"

text \<open>\<^verbatim>\<open>PeerFinder::Slot::ptr\<close>: a slot by its identity; \<^verbatim>\<open>nullptr\<close> is \<open>None\<close>
  of \<open>slot option\<close>.\<close>
type_synonym slot = nat

text \<open>\<^verbatim>\<open>RippleAddress\<close>, the node public key, by its encoded form.\<close>
type_synonym RippleAddress = string

text \<open>The transport, \<^verbatim>\<open>std::unique_ptr<beast::asio::ssl_bundle>\<close>, by identity.\<close>
type_synonym ssl_bundle = nat

type_synonym address_type = nat

text \<open>\<^verbatim>\<open>endpoint_type\<close> and \<^verbatim>\<open>beast::IP::Endpoint\<close>;
  \<^verbatim>\<open>IPAddressConversion::from_asio\<close> converts one into the other and is the identity
  here.\<close>
record endpoint =
  address :: address_type
  port :: nat

datatype error_code = no_error | operation_aborted | other_error nat

text \<open>Modelled from the spec: \<^verbatim>\<open>PeerFinder::Result\<close> is declared outside the source
  file; the spec lists the outcomes of the Slot Provider's activate as success, full and
  rejected.  The source compares the result with \<open>success\<close> only.\<close>
datatype Result = success | full | rejected

text \<open>A \<^verbatim>\<open>PeerImp\<close> by what the manager gives its constructor and reads back through
  \<^verbatim>\<open>id()\<close>, \<^verbatim>\<open>slot()\<close>, \<^verbatim>\<open>getNodePublic()\<close> and \<^verbatim>\<open>getRemoteAddress()\<close>;
  \<open>p_ssl_bundle\<close> is the transport moved into an inbound peer.\<close>
record PeerImp =
  p_id :: id_t
  p_slot :: slot
  p_nodePublic :: RippleAddress
  p_remoteAddress :: endpoint
  p_ssl_bundle :: "ssl_bundle option"

text \<open>The key of a peer whose handshake has not produced one yet.\<close>
definition RippleAddress_unset :: RippleAddress where
  "RippleAddress_unset = []"

text \<open>\<^verbatim>\<open>OverlayImpl::Child\<close>: the timer and the peers.\<close>
datatype child = Timer_child | PeerImp_child PeerImp

datatype severity = kTrace | kDebug | kError

datatype journal_line =
    Msg_upgrade_from endpoint
  | Msg_failed endpoint error_code
  | Msg_redirected_slots_full endpoint
  | Msg_activated endpoint id_t RippleAddress
  | Msg_on_timer error_code

text \<open>One constructor for each call that leaves the manager.\<close>
datatype event =
    Socket_local_endpoint ssl_bundle
  | RM_newInboundEndpoint endpoint
  | Consumer_disconnect nat
  | PF_new_inbound_slot endpoint endpoint
  | PF_new_outbound_slot endpoint
  | PF_redirect slot
  | PF_activate slot RippleAddress bool
  | PF_once_per_second
  | PF_autoconnect
  | PF_buildEndpointsForPeers
  | TMHello_parseHello
  | TMHello_makeSharedValue ssl_bundle
  | TMHello_verifyHello nat nat
  | UNL_nodeInCluster RippleAddress
  | PeerImp_new PeerImp
  | PeerImp_run PeerImp
  | PeerImp_stop PeerImp
  | PeerImp_sendEndpoints PeerImp "endpoint list"
  | Timer_cancel
  | Timer_expires_from_now nat
  | Timer_async_wait
  | Journal severity journal_line

text \<open>Each assertion of the source file, by function.\<close>
datatype abort =
    Assert_connect_work
  | Assert_remove_found
  | Assert_activate_shortId
  | Assert_activate_publicKey
  | Assert_activate_size
  | Assert_add_emplaced

subsection \<open>HTTP messages, JSON and the hand-off record\<close>

text \<open>The accessors of \<^verbatim>\<open>beast::http::message\<close> that the source reads from a request:
  \<open>headers m name\<close> is \<^verbatim>\<open>m.headers[name]\<close>, \<open>is_request m\<close> is
  \<^verbatim>\<open>m.request()\<close>.\<close>
record message =
  upgrade :: bool
  headers :: "string \<Rightarrow> string"
  is_request :: bool
  status :: int
  version :: "nat \<times> nat"
  keep_alive :: bool

text \<open>The message built by \<^verbatim>\<open>makeRedirectResponse\<close>: the fields the source sets on a
  default-constructed message, \<open>r_headers\<close> the fields appended in order.\<close>
record response_message =
  r_request :: bool
  r_status :: int
  r_reason :: string
  r_headers :: "(string \<times> string) list"
  r_version :: "nat \<times> nat"

datatype json = J_string string | J_array "json list" | J_object "(string \<times> json) list"

text \<open>\<^verbatim>\<open>HTTP::make_JsonWriter (m, json)\<close>: the writer of a message and its body.\<close>
record Writer =
  w_message :: response_message
  w_json :: json

text \<open>Modelled from the spec: \<^verbatim>\<open>Handoff\<close> is declared outside the source file; the
  outcome of negotiate is "not handled" or "handled" with an optional response, and a
  default-constructed hand-off is the "not handled" outcome: nothing moved, no
  response.\<close>
record Handoff =
  moved :: bool
  h_keep_alive :: bool
  response :: "Writer option"

definition Handoff_default :: Handoff where
  "Handoff_default = \<lparr>moved = False, h_keep_alive = False, response = None\<rparr>"

subsection \<open>The collaborators' answers\<close>

record env =
  local_endpoint_of :: "ssl_bundle \<Rightarrow> error_code \<times> endpoint"
  newInboundEndpoint_of :: "endpoint \<Rightarrow> nat"
  disconnect_of :: "nat \<Rightarrow> bool"
  new_inbound_slot_of :: "endpoint \<Rightarrow> endpoint \<Rightarrow> slot option"
  new_outbound_slot_of :: "endpoint \<Rightarrow> slot option"
  redirect_of :: "slot \<Rightarrow> endpoint list"
  activate_of :: "slot \<Rightarrow> RippleAddress \<Rightarrow> bool \<Rightarrow> Result"
  autoconnect_of :: "endpoint list"
  buildEndpointsForPeers_of :: "(slot \<times> endpoint list) list"
  parseHello_of :: "message \<Rightarrow> nat \<times> bool"
  makeSharedValue_of :: "ssl_bundle \<Rightarrow> nat \<times> bool"
  verifyHello_of :: "nat \<Rightarrow> nat \<Rightarrow> RippleAddress \<times> bool"
  nodeInCluster_of :: "RippleAddress \<Rightarrow> bool"
  parse_ProtocolVersions :: "string \<Rightarrow> (nat \<times> nat) list"
  split_commas :: "string \<Rightarrow> string list"
  ci_equal :: "string \<Rightarrow> string \<Rightarrow> bool"
  to_string :: "address_type \<Rightarrow> string"
  expired :: "child \<Rightarrow> bool"
  journal_active :: "severity \<Rightarrow> bool"

subsection \<open>The state of the manager\<close>

text \<open>The fields of \<^verbatim>\<open>OverlayImpl\<close>; a prime stands for the trailing underscore of the
  source.  \<open>work'\<close> is whether \<^verbatim>\<open>work_\<close> holds a value; \<open>stopping\<close> is
  \<^verbatim>\<open>Stoppable::isStopping()\<close>.  A map is the list of its entries, with the operations
  of the standard containers below.  The list keeps the entries in the order they were
  inserted; the containers of the source iterate by key or by hash, so where the source
  iterates over a map (in \<^verbatim>\<open>stop\<close>) the order of the visits is the model's, the
  entries visited are the source's.\<close>
record overlay =
  work' :: bool
  stopping :: bool
  m_peers :: "(slot \<times> PeerImp) list"
  m_shortIdMap :: "(id_t \<times> PeerImp) list"
  m_publicKeyMap :: "(RippleAddress \<times> PeerImp) list"
  list' :: "(child \<times> child) list"
  next_id' :: id_t
  events :: "event list"

text \<open>\<^verbatim>\<open>map::emplace\<close>: inserts when the key is absent, and says whether it did.\<close>
definition emplace :: "'k \<Rightarrow> 'v \<Rightarrow> ('k \<times> 'v) list \<Rightarrow> ('k \<times> 'v) list \<times> bool" where
  "emplace k v m = (case map_of m k of
      None \<Rightarrow> (m @ [(k, v)], True)
    | Some _ \<Rightarrow> (m, False))"

text \<open>\<^verbatim>\<open>map::erase\<close> of a key, or of the iterator \<^verbatim>\<open>find\<close> returned for it.\<close>
definition erase :: "'k \<Rightarrow> ('k \<times> 'v) list \<Rightarrow> ('k \<times> 'v) list" where
  "erase k m = filter (\<lambda>entry. fst entry \<noteq> k) m"

text \<open>\<^verbatim>\<open>weak_ptr::lock\<close>: the object, unless it has been destroyed.\<close>
definition lock :: "env \<Rightarrow> child \<Rightarrow> child option" where
  "lock e c = (if expired e c then None else Some c)"

definition emit :: "event \<Rightarrow> overlay \<Rightarrow> overlay" where
  "emit ev s = s\<lparr>events := events s @ [ev]\<rparr>"

text \<open>A line written to a stream of the journal, when the stream is active.\<close>
definition journal :: "env \<Rightarrow> severity \<Rightarrow> journal_line \<Rightarrow> overlay \<Rightarrow> overlay" where
  "journal e sev line s = (if journal_active e sev then emit (Journal sev line) s else s)"

text \<open>The constructor: the work token in place, no peer, \<^verbatim>\<open>next_id_ (1)\<close>.\<close>
definition OverlayImpl :: overlay where
  "OverlayImpl = \<lparr>work' = True, stopping = False, m_peers = [], m_shortIdMap = [],
     m_publicKeyMap = [], list' = [], next_id' = 1, events = []\<rparr>"

subsection \<open>The registry\<close>

definition size_overlay :: "overlay \<Rightarrow> nat" where
  "size_overlay s = length (m_publicKeyMap s)"

definition activate :: "env \<Rightarrow> PeerImp \<Rightarrow> overlay \<Rightarrow> abort + overlay" where
  "activate e peer s =
    (let (ids, inserted) = emplace (p_id peer) peer (m_shortIdMap s);
         s = s\<lparr>m_shortIdMap := ids\<rparr>
     in if \<not> inserted then Inl Assert_activate_shortId
     else
       let (keys, inserted) = emplace (p_nodePublic peer) peer (m_publicKeyMap s);
           s = s\<lparr>m_publicKeyMap := keys\<rparr>
       in if \<not> inserted then Inl Assert_activate_publicKey
       else
         let s = journal e kDebug
                   (Msg_activated (p_remoteAddress peer) (p_id peer) (p_nodePublic peer)) s
         in if \<not> (size_overlay s \<noteq> 0) then Inl Assert_activate_size
         else Inr s)"

definition onPeerDeactivate :: "id_t \<Rightarrow> RippleAddress \<Rightarrow> overlay \<Rightarrow> overlay" where
  "onPeerDeactivate ident publicKey s =
    (let s = s\<lparr>m_shortIdMap := erase ident (m_shortIdMap s)\<rparr>
     in s\<lparr>m_publicKeyMap := erase publicKey (m_publicKeyMap s)\<rparr>)"

definition add :: "PeerImp \<Rightarrow> overlay \<Rightarrow> abort + overlay" where
  "add peer s =
    (let (peers, inserted) = emplace (p_slot peer) peer (m_peers s);
         s = s\<lparr>m_peers := peers\<rparr>
     in if \<not> inserted then Inl Assert_add_emplaced
     else Inr (s\<lparr>list' := fst (emplace (PeerImp_child peer) (PeerImp_child peer) (list' s))\<rparr>))"

text \<open>\<^verbatim>\<open>OverlayImpl::remove (PeerFinder::Slot::ptr const&)\<close>.\<close>
definition remove_slot :: "slot \<Rightarrow> overlay \<Rightarrow> abort + overlay" where
  "remove_slot sl s =
    (case map_of (m_peers s) sl of
       None \<Rightarrow> Inl Assert_remove_found
     | Some _ \<Rightarrow> Inr (s\<lparr>m_peers := erase sl (m_peers s)\<rparr>))"

subsection \<open>The timer\<close>

definition Timer_stop :: "overlay \<Rightarrow> overlay" where
  "Timer_stop s = emit Timer_cancel s"

definition Timer_run :: "overlay \<Rightarrow> overlay" where
  "Timer_run s = emit Timer_async_wait (emit (Timer_expires_from_now 1) s)"

subsection \<open>Outbound connections and the periodic work\<close>

definition connect :: "env \<Rightarrow> endpoint \<Rightarrow> overlay \<Rightarrow> abort + overlay" where
  "connect e remote_endpoint s =
    (if \<not> work' s then Inl Assert_connect_work
     else
       let s = emit (PF_new_outbound_slot remote_endpoint) s
       in case new_outbound_slot_of e remote_endpoint of
            None \<Rightarrow> Inr s
          | Some sl \<Rightarrow>
              let peer = \<lparr>p_id = next_id' s, p_slot = sl, p_nodePublic = RippleAddress_unset,
                          p_remoteAddress = remote_endpoint, p_ssl_bundle = None\<rparr>;
                  s = emit (PeerImp_new peer) (s\<lparr>next_id' := next_id' s + 1\<rparr>)
              in (case add peer s of
                    Inl a \<Rightarrow> Inl a
                  | Inr s \<Rightarrow> Inr (emit (PeerImp_run peer) s)))"

text \<open>The loop of \<^verbatim>\<open>autoConnect\<close> over the addresses the PeerFinder returned.\<close>
primrec autoConnect_loop :: "env \<Rightarrow> endpoint list \<Rightarrow> overlay \<Rightarrow> abort + overlay" where
  "autoConnect_loop e [] s = Inr s"
| "autoConnect_loop e (addr # rest) s =
    (case connect e addr s of
       Inl a \<Rightarrow> Inl a
     | Inr s \<Rightarrow> autoConnect_loop e rest s)"

definition autoConnect :: "env \<Rightarrow> overlay \<Rightarrow> abort + overlay" where
  "autoConnect e s = autoConnect_loop e (autoconnect_of e) (emit PF_autoconnect s)"

text \<open>The body of the loop of \<^verbatim>\<open>sendEndpoints\<close>, for one entry of the plan.\<close>
definition sendEndpoints_entry :: "env \<Rightarrow> slot \<times> endpoint list \<Rightarrow> overlay \<Rightarrow> overlay" where
  "sendEndpoints_entry e entry s =
    (let peer = (case map_of (m_peers s) (fst entry) of
                   None \<Rightarrow> None
                 | Some p \<Rightarrow> (if expired e (PeerImp_child p) then None else Some p))
     in case peer of
          None \<Rightarrow> s
        | Some p \<Rightarrow> emit (PeerImp_sendEndpoints p (snd entry)) s)"

primrec sendEndpoints_loop :: "env \<Rightarrow> (slot \<times> endpoint list) list \<Rightarrow> overlay \<Rightarrow> overlay" where
  "sendEndpoints_loop e [] s = s"
| "sendEndpoints_loop e (entry # rest) s = sendEndpoints_loop e rest (sendEndpoints_entry e entry s)"

definition sendEndpoints :: "env \<Rightarrow> overlay \<Rightarrow> overlay" where
  "sendEndpoints e s =
     sendEndpoints_loop e (buildEndpointsForPeers_of e) (emit PF_buildEndpointsForPeers s)"

definition on_timer :: "env \<Rightarrow> error_code \<Rightarrow> overlay \<Rightarrow> abort + overlay" where
  "on_timer e ec s =
    (if ec \<noteq> no_error \<or> stopping s then
       Inr (if ec \<noteq> no_error \<and> ec \<noteq> operation_aborted
            then journal e kError (Msg_on_timer ec) s
            else s)
     else
       let s = emit PF_once_per_second s;
           s = sendEndpoints e s
       in case autoConnect e s of
            Inl a \<Rightarrow> Inl a
          | Inr s \<Rightarrow> Inr (emit Timer_async_wait (emit (Timer_expires_from_now 1) s)))"

subsection \<open>Stopping\<close>

text \<open>\<^verbatim>\<open>child->stop()\<close>: the timer's is in the source file, a peer's is not.\<close>
primrec child_stop :: "child \<Rightarrow> overlay \<Rightarrow> overlay" where
  "child_stop Timer_child s = Timer_stop s"
| "child_stop (PeerImp_child p) s = emit (PeerImp_stop p) s"

primrec stop_loop :: "env \<Rightarrow> (child \<times> child) list \<Rightarrow> overlay \<Rightarrow> overlay" where
  "stop_loop e [] s = s"
| "stop_loop e (entry # rest) s =
    stop_loop e rest
      (case lock e (snd entry) of
         None \<Rightarrow> s
       | Some c \<Rightarrow> child_stop c s)"

definition stop :: "env \<Rightarrow> overlay \<Rightarrow> overlay" where
  "stop e s =
    (if work' s then
       let s = s\<lparr>work' := False\<rparr>
       in stop_loop e (list' s) s
     else s)"

subsection \<open>Inbound connections\<close>

definition isPeerUpgrade :: "env \<Rightarrow> message \<Rightarrow> bool" where
  "isPeerUpgrade e request =
    (if \<not> upgrade request then False
     else
       let versions = parse_ProtocolVersions e (headers request ''Upgrade'')
       in if length versions = 0 then False
          else if \<not> is_request request \<and> status request \<noteq> 101 then False
          else True)"

text \<open>The PeerFinder is asked for the candidates twice; the body is rendered from the
  second answer.\<close>
definition makeRedirectResponse ::
  "env \<Rightarrow> slot \<Rightarrow> message \<Rightarrow> address_type \<Rightarrow> overlay \<Rightarrow> Writer \<times> overlay" where
  "makeRedirectResponse e sl request remote_address s =
    (let s = emit (PF_redirect sl) s;
         s = emit (PF_redirect sl) s;
         ips = map (\<lambda>ep. J_string (to_string e (address ep))) (redirect_of e sl);
         json = J_object [(''peer-ips'', J_array ips)];
         m = \<lparr>r_request = False, r_status = 503, r_reason = ''Service Unavailable'',
              r_headers = [(''Remote-Address'', to_string e remote_address)],
              r_version = version request\<rparr>
     in (\<lparr>w_message = m, w_json = json\<rparr>, s))"

definition onLegacyPeerHello ::
  "env \<Rightarrow> ssl_bundle \<Rightarrow> nat list \<Rightarrow> endpoint \<Rightarrow> overlay \<Rightarrow> abort + overlay" where
  "onLegacyPeerHello e bundle buffer remote_endpoint s =
    (let (ec, local_endpoint) = local_endpoint_of e bundle;
         s = emit (Socket_local_endpoint bundle) s
     in if ec \<noteq> no_error then Inr s
     else
       let slot = new_inbound_slot_of e local_endpoint remote_endpoint;
           s = emit (PF_new_inbound_slot local_endpoint remote_endpoint) s
       in case slot of
            None \<Rightarrow> Inr s
          | Some sl \<Rightarrow>
              let peer = \<lparr>p_id = next_id' s, p_slot = sl, p_nodePublic = RippleAddress_unset,
                          p_remoteAddress = remote_endpoint, p_ssl_bundle = Some bundle\<rparr>;
                  s = emit (PeerImp_new peer) (s\<lparr>next_id' := next_id' s + 1\<rparr>)
              in (case add peer s of
                    Inl a \<Rightarrow> Inl a
                  | Inr s \<Rightarrow> Inr (emit (PeerImp_run peer) s)))"

definition onHandoff ::
  "env \<Rightarrow> ssl_bundle \<Rightarrow> message \<Rightarrow> endpoint \<Rightarrow> overlay \<Rightarrow> abort + Handoff \<times> overlay" where
  "onHandoff e bundle request remote_endpoint s =
    (let handoff = Handoff_default
     in if \<not> isPeerUpgrade e request then Inr (handoff, s)
     else
       let handoff = handoff\<lparr>moved := True\<rparr>;
           s = journal e kTrace (Msg_upgrade_from remote_endpoint) s;
           (ec, local_endpoint) = local_endpoint_of e bundle;
           s = emit (Socket_local_endpoint bundle) s
       in if ec \<noteq> no_error
          then Inr (handoff, journal e kTrace (Msg_failed remote_endpoint ec) s)
       else
         let consumer = newInboundEndpoint_of e remote_endpoint;
             s = emit (RM_newInboundEndpoint remote_endpoint) s;
             s = emit (Consumer_disconnect consumer) s
         in if disconnect_of e consumer then Inr (handoff, s)
         else
           let slot = new_inbound_slot_of e local_endpoint remote_endpoint;
               s = emit (PF_new_inbound_slot local_endpoint remote_endpoint) s
           in case slot of
                None \<Rightarrow> Inr (handoff\<lparr>moved := False\<rparr>, s)
              | Some sl \<Rightarrow>
                  let types = split_commas e (headers request ''Connect-As'')
                  in if find (\<lambda>t. ci_equal e t ''peer'') types = None then
                       let handoff = handoff\<lparr>moved := False\<rparr>;
                           (writer, s) = makeRedirectResponse e sl request
                                           (address remote_endpoint) s;
                           handoff = handoff\<lparr>response := Some writer\<rparr>;
                           handoff = handoff\<lparr>h_keep_alive := keep_alive request\<rparr>
                       in Inr (handoff, s)
                     else
                       let handoff = handoff\<lparr>moved := True\<rparr>;
                           (hello, success) = parseHello_of e request;
                           s = emit TMHello_parseHello s
                       in if \<not> success then Inr (handoff, s)
                       else
                         let (sharedValue, success) = makeSharedValue_of e bundle;
                             s = emit (TMHello_makeSharedValue bundle) s
                         in if \<not> success then Inr (handoff, s)
                         else
                           let (publicKey, success) = verifyHello_of e hello sharedValue;
                               s = emit (TMHello_verifyHello hello sharedValue) s
                           in if \<not> success then Inr (handoff, s)
                           else
                             let clusterNode = nodeInCluster_of e publicKey;
                                 s = emit (UNL_nodeInCluster publicKey) s;
                                 result = activate_of e sl publicKey clusterNode;
                                 s = emit (PF_activate sl publicKey clusterNode) s
                             in if result \<noteq> Result.success then
                                  let s = journal e kTrace
                                            (Msg_redirected_slots_full remote_endpoint) s;
                                      handoff = handoff\<lparr>moved := False\<rparr>;
                                      (writer, s) = makeRedirectResponse e sl request
                                                      (address remote_endpoint) s;
                                      handoff = handoff\<lparr>response := Some writer\<rparr>;
                                      handoff = handoff\<lparr>h_keep_alive := keep_alive request\<rparr>
                                  in Inr (handoff, s)
                                else
                                  let peer = \<lparr>p_id = next_id' s, p_slot = sl,
                                              p_nodePublic = publicKey,
                                              p_remoteAddress = remote_endpoint,
                                              p_ssl_bundle = Some bundle\<rparr>;
                                      s = emit (PeerImp_new peer) (s\<lparr>next_id' := next_id' s + 1\<rparr>)
                                  in (case add peer s of
                                        Inl a \<Rightarrow> Inl a
                                      | Inr s \<Rightarrow>
                                          Inr (handoff\<lparr>moved := True\<rparr>,
                                               emit (PeerImp_run peer) s)))"

subsection \<open>Runs of the entry points, and the notions the statements use\<close>

text \<open>The entry points of the manager as calls, to run one after another; each call
  comes with the environment that answers it, and an abort ends the run.\<close>
datatype call =
    Call_activate PeerImp
  | Call_onPeerDeactivate id_t RippleAddress
  | Call_remove slot
  | Call_connect endpoint
  | Call_onLegacyPeerHello ssl_bundle "nat list" endpoint
  | Call_onHandoff ssl_bundle message endpoint
  | Call_on_timer error_code
  | Call_stop

primrec exec :: "env \<Rightarrow> call \<Rightarrow> overlay \<Rightarrow> abort + overlay" where
  "exec e (Call_activate peer) s = activate e peer s"
| "exec e (Call_onPeerDeactivate ident publicKey) s = Inr (onPeerDeactivate ident publicKey s)"
| "exec e (Call_remove sl) s = remove_slot sl s"
| "exec e (Call_connect remote_endpoint) s = connect e remote_endpoint s"
| "exec e (Call_onLegacyPeerHello bundle buffer remote_endpoint) s =
     onLegacyPeerHello e bundle buffer remote_endpoint s"
| "exec e (Call_onHandoff bundle request remote_endpoint) s =
     (case onHandoff e bundle request remote_endpoint s of
        Inl a \<Rightarrow> Inl a
      | Inr result \<Rightarrow> Inr (snd result))"
| "exec e (Call_on_timer ec) s = on_timer e ec s"
| "exec e Call_stop s = Inr (stop e s)"

primrec run :: "(env \<times> call) list \<Rightarrow> overlay \<Rightarrow> abort + overlay" where
  "run [] s = Inr s"
| "run (c # cs) s =
    (case exec (fst c) (snd c) s of
       Inl a \<Rightarrow> Inl a
     | Inr s' \<Rightarrow> run cs s')"

text \<open>A deactivation names one peer: the id is registered for a peer with that key, or
  neither the id nor the key is registered.\<close>
definition deactivate_names_peer :: "overlay \<Rightarrow> id_t \<Rightarrow> RippleAddress \<Rightarrow> bool" where
  "deactivate_names_peer s ident publicKey =
    (case map_of (m_shortIdMap s) ident of
       Some p \<Rightarrow> p_nodePublic p = publicKey
     | None \<Rightarrow> map_of (m_publicKeyMap s) publicKey = None)"

primrec call_names_peer :: "call \<Rightarrow> overlay \<Rightarrow> bool" where
  "call_names_peer (Call_activate peer) s = True"
| "call_names_peer (Call_onPeerDeactivate ident publicKey) s =
     deactivate_names_peer s ident publicKey"
| "call_names_peer (Call_remove sl) s = True"
| "call_names_peer (Call_connect remote_endpoint) s = True"
| "call_names_peer (Call_onLegacyPeerHello bundle buffer remote_endpoint) s = True"
| "call_names_peer (Call_onHandoff bundle request remote_endpoint) s = True"
| "call_names_peer (Call_on_timer ec) s = True"
| "call_names_peer Call_stop s = True"

text \<open>Every deactivation of the run names one peer in the state it is called in.\<close>
primrec deactivations_name_peers :: "(env \<times> call) list \<Rightarrow> overlay \<Rightarrow> bool" where
  "deactivations_name_peers [] s = True"
| "deactivations_name_peers (c # cs) s =
    (call_names_peer (snd c) s
     \<and> (case exec (fst c) (snd c) s of
          Inl a \<Rightarrow> True
        | Inr s' \<Rightarrow> deactivations_name_peers cs s'))"

text \<open>The two indexes of active peers agree: each has one entry for a key, a peer is
  entered under its own id and its own public key, and both hold the same peers.\<close>
definition indexes_agree :: "overlay \<Rightarrow> bool" where
  "indexes_agree s =
    (distinct (map fst (m_shortIdMap s))
     \<and> distinct (map fst (m_publicKeyMap s))
     \<and> (\<forall>entry \<in> set (m_shortIdMap s). p_id (snd entry) = fst entry)
     \<and> (\<forall>entry \<in> set (m_publicKeyMap s). p_nodePublic (snd entry) = fst entry)
     \<and> snd ` set (m_shortIdMap s) = snd ` set (m_publicKeyMap s))"

text \<open>The event a child's \<^verbatim>\<open>stop()\<close> leaves in the trace.\<close>
definition stop_event :: "child \<Rightarrow> event" where
  "stop_event c = (case c of Timer_child \<Rightarrow> Timer_cancel | PeerImp_child p \<Rightarrow> PeerImp_stop p)"

text \<open>The calls made by \<open>sendEndpoints\<close> after it has the plan, and the calls made by
  \<open>connect\<close>.\<close>
fun sendEndpoints_event :: "event \<Rightarrow> bool" where
  "sendEndpoints_event (PeerImp_sendEndpoints p eps) = True"
| "sendEndpoints_event ev = False"

fun connect_event :: "event \<Rightarrow> bool" where
  "connect_event (PF_new_outbound_slot r) = True"
| "connect_event (PeerImp_new p) = True"
| "connect_event (PeerImp_run p) = True"
| "connect_event ev = False"

text \<open>The slots the PeerFinder grants for a list of addresses, in order.\<close>
definition outbound_slots :: "env \<Rightarrow> endpoint list \<Rightarrow> slot list" where
  "outbound_slots e addrs = List.map_filter (new_outbound_slot_of e) addrs"

subsection \<open>An environment for running the definitions\<close>

text \<open>Modelled from the spec: \<^verbatim>\<open>beast::ci_equal\<close> and
  \<^verbatim>\<open>beast::rfc2616::split_commas\<close> are outside the source file; the spec has the
  header's comma-separated values compared case-insensitively.  These two functions are
  only the answers of the example environment \<open>env0\<close>; the functions of the manager
  take theirs from any environment.\<close>
definition to_lower :: "char \<Rightarrow> char" where
  "to_lower c =
    (case map_of (zip ''ABCDEFGHIJKLMNOPQRSTUVWXYZ'' ''abcdefghijklmnopqrstuvwxyz'') c of
       None \<Rightarrow> c
     | Some l \<Rightarrow> l)"

primrec comma_values :: "string \<Rightarrow> string \<Rightarrow> string list" where
  "comma_values acc [] = (if acc = [] then [] else [rev acc])"
| "comma_values acc (c # cs) =
    (if c = CHR '','' then (if acc = [] then [] else [rev acc]) @ comma_values [] cs
     else if c = CHR '' '' then comma_values acc cs
     else comma_values (c # acc) cs)"

definition ep :: "nat \<Rightarrow> endpoint" where
  "ep a = \<lparr>address = a, port = 51235\<rparr>"

text \<open>The local endpoint is host 1; a connection from host 1 is a self-connection and
  gets no slot; every other host gets the slot of its number.\<close>
definition env0 :: env where
  "env0 = \<lparr>
     local_endpoint_of = (\<lambda>b. (no_error, ep 1)),
     newInboundEndpoint_of = (\<lambda>r. address r),
     disconnect_of = (\<lambda>c. False),
     new_inbound_slot_of = (\<lambda>l r. if address l = address r then None else Some (address r)),
     new_outbound_slot_of = (\<lambda>r. if address r = 1 then None else Some (address r)),
     redirect_of = (\<lambda>sl. [ep 7, ep 8]),
     activate_of = (\<lambda>sl k c. Result.success),
     autoconnect_of = [ep 1, ep 5],
     buildEndpointsForPeers_of = [(5, [ep 7])],
     parseHello_of = (\<lambda>m. (0, True)),
     makeSharedValue_of = (\<lambda>b. (0, True)),
     verifyHello_of = (\<lambda>h v. (''n9KeyA'', True)),
     nodeInCluster_of = (\<lambda>k. False),
     parse_ProtocolVersions = (\<lambda>h. if h = ''RTXP/1.2'' then [(1, 2)] else []),
     split_commas = comma_values [],
     ci_equal = (\<lambda>a b. map to_lower a = map to_lower b),
     to_string = (\<lambda>a. if a = 7 then ''10.0.0.7'' else if a = 8 then ''10.0.0.8''
                       else ''10.0.0.2''),
     expired = (\<lambda>c. False),
     journal_active = (\<lambda>sev. False)\<rparr>"

text \<open>An upgrade request of an HTTP client that is not a peer, and a plain request.\<close>
definition request_rpc :: message where
  "request_rpc = \<lparr>upgrade = True,
     headers = (\<lambda>n. if n = ''Upgrade'' then ''RTXP/1.2''
                     else if n = ''Connect-As'' then ''rpc, web'' else []),
     is_request = True, status = 0, version = (1, 1), keep_alive = True\<rparr>"


definition request_plain :: message where
  "request_plain = \<lparr>upgrade = False, headers = (\<lambda>n. []),
     is_request = True, status = 0, version = (1, 1), keep_alive = False\<rparr>"

text \<open>An upgrade request to a protocol without a peer version, and a response that
  declares an upgrade with a status other than 101.\<close>
definition request_websocket :: message where
  "request_websocket = request_rpc\<lparr>headers := (\<lambda>n. if n = ''Upgrade'' then ''websocket''
                     else [])\<rparr>"

definition response_200 :: message where
  "response_200 = request_rpc\<lparr>is_request := False, status := 200\<rparr>"

definition peerA :: PeerImp where
  "peerA = \<lparr>p_id = 1, p_slot = 2, p_nodePublic = ''n9KeyA'', p_remoteAddress = ep 2,
     p_ssl_bundle = Some 0\<rparr>"

definition peerB :: PeerImp where
  "peerB = \<lparr>p_id = 2, p_slot = 3, p_nodePublic = ''n9KeyB'', p_remoteAddress = ep 3,
     p_ssl_bundle = Some 1\<rparr>"

text \<open>A running manager with the timer and two peers as children, and an environment
  in which the first of the two peers has been destroyed.\<close>
definition overlay_children :: overlay where
  "overlay_children = OverlayImpl\<lparr>list' := [(Timer_child, Timer_child),
                                   (PeerImp_child peerA, PeerImp_child peerA),
                                   (PeerImp_child peerB, PeerImp_child peerB)]\<rparr>"

definition env_A_expired :: env where
  "env_A_expired = env0\<lparr>expired := (\<lambda>c. c = PeerImp_child peerA)\<rparr>"



text \<open>The peer \<open>onLegacyPeerHello\<close> makes for host 2 in a new manager, and an
  environment whose accounting, hello parsing and activation all refuse.\<close>
definition peer_legacy :: PeerImp where
  "peer_legacy = \<lparr>p_id = 1, p_slot = 2, p_nodePublic = RippleAddress_unset,
     p_remoteAddress = ep 2, p_ssl_bundle = Some 0\<rparr>"

definition env_refusing :: env where
  "env_refusing = env0\<lparr>disconnect_of := (\<lambda>c. True),
     activate_of := (\<lambda>sl k c. full),
     parseHello_of := (\<lambda>m. (0, False)),
     makeSharedValue_of := (\<lambda>b. (0, False)),
     verifyHello_of := (\<lambda>h v. ([], False))\<rparr>"

text \<open>An environment in which the local endpoint of the transport cannot be read.\<close>
definition env_unresolved :: env where
  "env_unresolved = env0\<lparr>local_endpoint_of := (\<lambda>b. (other_error 1, ep 1))\<rparr>"

text \<open>A new manager in which \<open>peerA\<close> has been activated, and a run of the entry
  points: an outbound connection, two activations, one deactivation.\<close>
definition overlay_A :: overlay where
  "overlay_A = OverlayImpl\<lparr>m_shortIdMap := [(1, peerA)],
                             m_publicKeyMap := [(''n9KeyA'', peerA)]\<rparr>"

definition peer_out :: PeerImp where
  "peer_out = \<lparr>p_id = 1, p_slot = 5, p_nodePublic = RippleAddress_unset,
     p_remoteAddress = ep 5, p_ssl_bundle = None\<rparr>"

definition calls0 :: "(env \<times> call) list" where
  "calls0 = [(env0, Call_connect (ep 5)),
             (env0, Call_activate peerA),
             (env0, Call_activate peerB),
             (env0, Call_onPeerDeactivate 1 ''n9KeyA'')]"

definition overlay_calls0 :: overlay where
  "overlay_calls0 = OverlayImpl\<lparr>
     m_peers := [(5, peer_out)],
     m_shortIdMap := [(2, peerB)],
     m_publicKeyMap := [(''n9KeyB'', peerB)],
     list' := [(PeerImp_child peer_out, PeerImp_child peer_out)],
     next_id' := 2,
     events := [PF_new_outbound_slot (ep 5), PeerImp_new peer_out, PeerImp_run peer_out]\<rparr>"

text \<open>The same run followed by a second outbound connection: two peers are tracked by
  slot, one is active.\<close>
definition peer_out6 :: PeerImp where
  "peer_out6 = \<lparr>p_id = 2, p_slot = 6, p_nodePublic = RippleAddress_unset,
     p_remoteAddress = ep 6, p_ssl_bundle = None\<rparr>"

definition calls1 :: "(env \<times> call) list" where
  "calls1 = calls0 @ [(env0, Call_connect (ep 6))]"

definition overlay_calls1 :: overlay where
  "overlay_calls1 = overlay_calls0\<lparr>
     m_peers := [(5, peer_out), (6, peer_out6)],
     list' := [(PeerImp_child peer_out, PeerImp_child peer_out),
               (PeerImp_child peer_out6, PeerImp_child peer_out6)],
     next_id' := 3,
     events := [PF_new_outbound_slot (ep 5), PeerImp_new peer_out, PeerImp_run peer_out,
                PF_new_outbound_slot (ep 6), PeerImp_new peer_out6, PeerImp_run peer_out6]\<rparr>"






text \<open>A running manager whose peer on slot 5 is to be sent endpoints, and the state a
  tick leaves it in: \<open>env0\<close> refuses host 1 an outbound slot and grants host 5 slot 5,
  so the tick is run in an environment that grants host 9 slot 9 instead.\<close>
definition env_tick :: env where
  "env_tick = env0\<lparr>autoconnect_of := [ep 1, ep 9]\<rparr>"

definition peer_9 :: PeerImp where
  "peer_9 = \<lparr>p_id = 2, p_slot = 9, p_nodePublic = RippleAddress_unset,
     p_remoteAddress = ep 9, p_ssl_bundle = None\<rparr>"

definition overlay_ticked :: overlay where
  "overlay_ticked = overlay_calls0\<lparr>
     m_peers := [(5, peer_out), (9, peer_9)],
     list' := [(PeerImp_child peer_out, PeerImp_child peer_out),
               (PeerImp_child peer_9, PeerImp_child peer_9)],
     next_id' := 3,
     events := events overlay_calls0 @
       [PF_once_per_second,
        PF_buildEndpointsForPeers, PeerImp_sendEndpoints peer_out [ep 7],
        PF_autoconnect, PF_new_outbound_slot (ep 1), PF_new_outbound_slot (ep 9),
        PeerImp_new peer_9, PeerImp_run peer_9,
        Timer_expires_from_now 1, Timer_async_wait]\<rparr>"

section \<open>Properties\<close>

subsection \<open>Requests that are not peer upgrades\<close>

text \<open>
  C2.  When the request does not declare an upgrade, or the version list parsed from
  its Upgrade header is empty, or it is a response whose status is not 101,
  \<open>onHandoff\<close> returns the default hand-off (nothing moved, no response) and leaves
  the state as it was: the trace of collaborator calls gains nothing, so no slot is
  reserved, no accounting token is taken and the transport is not touched.
\<close>
theorem onHandoff_not_handled:
  assumes "\<not> upgrade request
           \<or> parse_ProtocolVersions e (headers request ''Upgrade'') = []
           \<or> (\<not> is_request request \<and> status request \<noteq> 101)"
  shows "onHandoff e bundle request remote_endpoint s
           = Inr (\<lparr>moved = False, h_keep_alive = False, response = None\<rparr>, s)"
proof -
  from assms have "\<not> isPeerUpgrade e request"
    by (auto simp: isPeerUpgrade_def Let_def)
  then show ?thesis
    by (simp add: onHandoff_def Handoff_default_def)
qed

theorem onHandoff_not_handled_witness:
  "\<not> upgrade request_plain
   \<and> onHandoff env0 0 request_plain (ep 2) OverlayImpl
       = Inr (\<lparr>moved = False, h_keep_alive = False, response = None\<rparr>, OverlayImpl)
   \<and> upgrade request_websocket
   \<and> parse_ProtocolVersions env0 (headers request_websocket ''Upgrade'') = []
   \<and> onHandoff env0 0 request_websocket (ep 2) OverlayImpl
       = Inr (\<lparr>moved = False, h_keep_alive = False, response = None\<rparr>, OverlayImpl)
   \<and> upgrade response_200
   \<and> parse_ProtocolVersions env0 (headers response_200 ''Upgrade'') \<noteq> []
   \<and> onHandoff env0 0 response_200 (ep 2) OverlayImpl
       = Inr (\<lparr>moved = False, h_keep_alive = False, response = None\<rparr>, OverlayImpl)"
  using onHandoff_not_handled [of request_plain env0 0 "ep 2" OverlayImpl]
        onHandoff_not_handled [of request_websocket env0 0 "ep 2" OverlayImpl]
        onHandoff_not_handled [of response_200 env0 0 "ep 2" OverlayImpl]
  by (simp add: request_plain_def request_websocket_def response_200_def request_rpc_def
                env0_def)

subsection \<open>Stopping\<close>

lemma child_stop_emit: "child_stop c s = emit (stop_event c) s"
  by (cases c) (simp_all add: stop_event_def Timer_stop_def)

lemma stop_loop_events:
  "stop_loop e xs s =
     s\<lparr>events := events s @ map stop_event (filter (\<lambda>c. \<not> expired e c) (map snd xs))\<rparr>"
  by (induction xs arbitrary: s) (simp_all add: lock_def child_stop_emit emit_def)

lemma stop_with_work:
  "work' s \<Longrightarrow> stop e s =
     s\<lparr>work' := False,
       events := events s @ map stop_event (filter (\<lambda>c. \<not> expired e c) (map snd (list' s)))\<rparr>"
  by (simp add: stop_def stop_loop_events)

lemma stop_without_work: "\<not> work' s \<Longrightarrow> stop e s = s"
  by (simp add: stop_def)

text \<open>
  C5.  \<open>stop\<close> is idempotent.  A call that finds the work token clears it and calls
  \<open>stop\<close> once on each child of \<open>list'\<close> whose weak reference resolves and on
  no other, changing nothing else; a call that finds the token absent
  returns the state as it is, with no child visited.  Hence a second call, whatever
  children are alive by then, changes nothing.  The function has no assertion and is
  total.
\<close>
theorem stop_idempotent:
  "(work' s \<longrightarrow>
      stop e s = s\<lparr>work' := False,
                    events := events s @ map stop_event
                      (filter (\<lambda>c. \<not> expired e c) (map snd (list' s)))\<rparr>)
   \<and> (\<not> work' s \<longrightarrow> stop e s = s)
   \<and> \<not> work' (stop e s)
   \<and> stop e2 (stop e s) = stop e s"
proof (cases "work' s")
  case True
  then show ?thesis by (simp add: stop_with_work stop_without_work)
next
  case False
  then show ?thesis by (simp add: stop_without_work)
qed

theorem stop_idempotent_witness:
  "work' overlay_children
   \<and> events (stop env_A_expired overlay_children) = [Timer_cancel, PeerImp_stop peerB]
   \<and> \<not> work' (stop env_A_expired overlay_children)
   \<and> stop env0 (stop env_A_expired overlay_children) = stop env_A_expired overlay_children"
proof -
  have w: "work' overlay_children"
    by (simp add: overlay_children_def OverlayImpl_def)
  have ex: "filter (\<lambda>c. \<not> expired env_A_expired c) (map snd (list' overlay_children))
              = [Timer_child, PeerImp_child peerB]"
    by (simp add: overlay_children_def env_A_expired_def peerA_def peerB_def)
  have ev: "events overlay_children = []"
    by (simp add: overlay_children_def OverlayImpl_def)
  note idem = stop_idempotent [of overlay_children env_A_expired env0]
  from idem w have first:
    "stop env_A_expired overlay_children
       = overlay_children\<lparr>work' := False,
           events := events overlay_children @ map stop_event
             (filter (\<lambda>c. \<not> expired env_A_expired c) (map snd (list' overlay_children)))\<rparr>"
    by blast
  have "events (stop env_A_expired overlay_children) = [Timer_cancel, PeerImp_stop peerB]"
    by (simp add: first ex ev stop_event_def)
  moreover from idem have "\<not> work' (stop env_A_expired overlay_children)"
    by blast
  moreover from idem have
    "stop env0 (stop env_A_expired overlay_children) = stop env_A_expired overlay_children"
    by blast
  ultimately show ?thesis using w by blast
qed

subsection \<open>Outbound connections\<close>

text \<open>
  C8.  \<open>connect\<close> asserts the work token before anything else: called when the token
  is absent it aborts on that assertion (it neither returns an error nor returns
  quietly), and called when the token is present it never aborts on that assertion.
\<close>
theorem connect_asserts_work:
  "(\<not> work' s \<longrightarrow> connect e remote_endpoint s = Inl Assert_connect_work)
   \<and> (work' s \<longrightarrow> connect e remote_endpoint s \<noteq> Inl Assert_connect_work)"
  by (auto simp: connect_def Let_def add_def emplace_def
           split: option.splits sum.splits prod.splits if_splits)

theorem connect_asserts_work_witness:
  "\<not> work' (stop env0 OverlayImpl)
   \<and> connect env0 (ep 5) (stop env0 OverlayImpl) = Inl Assert_connect_work
   \<and> work' OverlayImpl
   \<and> connect env0 (ep 5) OverlayImpl \<noteq> Inl Assert_connect_work"
  using connect_asserts_work [of "stop env0 OverlayImpl" env0 "ep 5"]
        connect_asserts_work [of OverlayImpl env0 "ep 5"]
  by (simp add: stop_def OverlayImpl_def)

subsection \<open>Inbound connections that get no peer\<close>

text \<open>
  C3, as stated, fails for an upgrade request without the value "peer" that does not
  reach the Connect-As test.  The client of \<open>request_rpc\<close> gets no response when
  the accounting token asks to disconnect, when the PeerFinder returns no slot (a
  connection from the local host), and when the local endpoint cannot be read.
\<close>
theorem onHandoff_no_redirect_counterexample:
  "isPeerUpgrade env0 request_rpc
   \<and> split_commas env0 (headers request_rpc ''Connect-As'') = [''rpc'', ''web'']
   \<and> \<not> ci_equal env0 ''rpc'' ''peer''
   \<and> \<not> ci_equal env0 ''web'' ''peer''
   \<and> onHandoff env_refusing 0 request_rpc (ep 2) OverlayImpl =
       Inr (\<lparr>moved = True, h_keep_alive = False, response = None\<rparr>,
            OverlayImpl\<lparr>events := [Socket_local_endpoint 0, RM_newInboundEndpoint (ep 2),
               Consumer_disconnect 2]\<rparr>)
   \<and> onHandoff env0 0 request_rpc (ep 1) OverlayImpl =
       Inr (\<lparr>moved = False, h_keep_alive = False, response = None\<rparr>,
            OverlayImpl\<lparr>events := [Socket_local_endpoint 0, RM_newInboundEndpoint (ep 1),
               Consumer_disconnect 1, PF_new_inbound_slot (ep 1) (ep 1)]\<rparr>)
   \<and> onHandoff env_unresolved 0 request_rpc (ep 2) OverlayImpl =
       Inr (\<lparr>moved = True, h_keep_alive = False, response = None\<rparr>,
            OverlayImpl\<lparr>events := [Socket_local_endpoint 0]\<rparr>)"
  by (simp add: isPeerUpgrade_def onHandoff_def env0_def env_refusing_def
                env_unresolved_def request_rpc_def ep_def OverlayImpl_def
                Handoff_default_def journal_def emit_def to_lower_def)

text \<open>
  C3, amended.  Take an upgrade request for which \<open>onHandoff\<close> reaches the
  Connect-As test: the request passes \<open>isPeerUpgrade\<close>, the local endpoint resolves,
  the accounting token does not ask to disconnect, and the PeerFinder grants the slot
  \<open>sl\<close>.  When no comma-separated value of its Connect-As header equals "peer"
  (compared with \<open>ci_equal\<close>), the hand-off is not moved, carries the request's
  keep-alive flag, and its response is the 503 "Service Unavailable" message with the
  request's version, the field Remote-Address set to the remote address as a string, and
  the body \<open>{"peer-ips": [...]}\<close> listing, in order, the address strings of the
  PeerFinder's redirect candidates for \<open>sl\<close>.
\<close>
theorem onHandoff_redirect_not_peer:
  assumes up: "isPeerUpgrade e request"
    and le: "local_endpoint_of e bundle = (no_error, local_endpoint)"
    and nd: "\<not> disconnect_of e (newInboundEndpoint_of e remote_endpoint)"
    and sl: "new_inbound_slot_of e local_endpoint remote_endpoint = Some sl"
    and np: "\<forall>t \<in> set (split_commas e (headers request ''Connect-As'')).
               \<not> ci_equal e t ''peer''"
  shows "\<exists>s'. onHandoff e bundle request remote_endpoint s =
     Inr (\<lparr>moved = False, h_keep_alive = keep_alive request,
           response = Some \<lparr>w_message = \<lparr>r_request = False, r_status = 503,
               r_reason = ''Service Unavailable'',
               r_headers = [(''Remote-Address'', to_string e (address remote_endpoint))],
               r_version = version request\<rparr>,
             w_json = J_object [(''peer-ips'',
               J_array (map (\<lambda>ep. J_string (to_string e (address ep)))
                          (redirect_of e sl)))]\<rparr>\<rparr>, s')"
proof -
  from np have none:
    "find (\<lambda>t. ci_equal e t ''peer'') (split_commas e (headers request ''Connect-As'')) = None"
    by (simp add: find_None_iff)
  show ?thesis
    by (simp add: onHandoff_def up le nd sl none Let_def makeRedirectResponse_def
                  Handoff_default_def)
qed

theorem onHandoff_redirect_not_peer_witness:
  "\<exists>s'. onHandoff env0 0 request_rpc (ep 2) OverlayImpl =
     Inr (\<lparr>moved = False, h_keep_alive = True,
           response = Some \<lparr>w_message = \<lparr>r_request = False, r_status = 503,
               r_reason = ''Service Unavailable'',
               r_headers = [(''Remote-Address'', ''10.0.0.2'')],
               r_version = (1, 1)\<rparr>,
             w_json = J_object [(''peer-ips'',
               J_array [J_string ''10.0.0.7'', J_string ''10.0.0.8''])]\<rparr>\<rparr>, s')"
proof -
  have up: "isPeerUpgrade env0 request_rpc"
    by (simp add: isPeerUpgrade_def env0_def request_rpc_def)
  have le: "local_endpoint_of env0 0 = (no_error, ep 1)"
    by (simp add: env0_def)
  have nd: "\<not> disconnect_of env0 (newInboundEndpoint_of env0 (ep 2))"
    by (simp add: env0_def)
  have sl: "new_inbound_slot_of env0 (ep 1) (ep 2) = Some 2"
    by (simp add: env0_def ep_def)
  have np: "\<forall>t \<in> set (split_commas env0 (headers request_rpc ''Connect-As'')).
              \<not> ci_equal env0 t ''peer''"
    by (simp add: env0_def request_rpc_def to_lower_def)
  from onHandoff_redirect_not_peer [OF up le nd sl np, of OverlayImpl]
  show ?thesis
    by (simp add: env0_def request_rpc_def ep_def)
qed




subsection \<open>The hand-off returned by onHandoff\<close>




subsection \<open>The legacy inbound path\<close>

text \<open>
  C10.  \<open>onLegacyPeerHello\<close> admits a peer after two calls only.  When the local
  endpoint resolves and the PeerFinder grants a slot that \<open>m_peers\<close> does not hold
  yet, the peer is constructed with the next id, added to \<open>m_peers\<close> and to the child
  list, and run; the trace gains exactly the local-endpoint call, the slot request, the
  construction and the run: no accounting token is requested, no hello is parsed or
  verified and the PeerFinder's activate is not called.  The function takes no request,
  so no header is inspected, and it consults no collaborator besides the two: an
  environment that answers those two calls alike gives the same result.
\<close>
theorem onLegacyPeerHello_admits_unchecked:
  "(local_endpoint_of e bundle = (no_error, local_endpoint)
    \<and> new_inbound_slot_of e local_endpoint remote_endpoint = Some sl
    \<and> map_of (m_peers s) sl = None \<longrightarrow>
      onLegacyPeerHello e bundle buffer remote_endpoint s =
        (let peer = \<lparr>p_id = next_id' s, p_slot = sl, p_nodePublic = RippleAddress_unset,
                      p_remoteAddress = remote_endpoint, p_ssl_bundle = Some bundle\<rparr>
         in Inr (s\<lparr>m_peers := m_peers s @ [(sl, peer)],
                   list' := fst (emplace (PeerImp_child peer) (PeerImp_child peer) (list' s)),
                   next_id' := next_id' s + 1,
                   events := events s @
                     [Socket_local_endpoint bundle,
                      PF_new_inbound_slot local_endpoint remote_endpoint,
                      PeerImp_new peer, PeerImp_run peer]\<rparr>)))
   \<and> (local_endpoint_of e2 = local_endpoint_of e
       \<and> new_inbound_slot_of e2 = new_inbound_slot_of e \<longrightarrow>
      onLegacyPeerHello e2 bundle buffer remote_endpoint s
        = onLegacyPeerHello e bundle buffer remote_endpoint s)"
proof -
  have admit: "onLegacyPeerHello e bundle buffer remote_endpoint s =
        (let peer = \<lparr>p_id = next_id' s, p_slot = sl, p_nodePublic = RippleAddress_unset,
                      p_remoteAddress = remote_endpoint, p_ssl_bundle = Some bundle\<rparr>
         in Inr (s\<lparr>m_peers := m_peers s @ [(sl, peer)],
                   list' := fst (emplace (PeerImp_child peer) (PeerImp_child peer) (list' s)),
                   next_id' := next_id' s + 1,
                   events := events s @
                     [Socket_local_endpoint bundle,
                      PF_new_inbound_slot local_endpoint remote_endpoint,
                      PeerImp_new peer, PeerImp_run peer]\<rparr>))"
    if "local_endpoint_of e bundle = (no_error, local_endpoint)"
      and "new_inbound_slot_of e local_endpoint remote_endpoint = Some sl"
      and "map_of (m_peers s) sl = None"
    using that
    by (simp add: onLegacyPeerHello_def Let_def add_def emplace_def emit_def)
  have same: "onLegacyPeerHello e2 bundle buffer remote_endpoint s
                = onLegacyPeerHello e bundle buffer remote_endpoint s"
    if "local_endpoint_of e2 = local_endpoint_of e"
      and "new_inbound_slot_of e2 = new_inbound_slot_of e"
    by (simp only: onLegacyPeerHello_def that)
  from admit same show ?thesis by blast
qed

theorem onLegacyPeerHello_admits_unchecked_witness:
  "onLegacyPeerHello env0 0 [] (ep 2) OverlayImpl =
     Inr (OverlayImpl\<lparr>m_peers := [(2, peer_legacy)],
            list' := [(PeerImp_child peer_legacy, PeerImp_child peer_legacy)],
            next_id' := 2,
            events := [Socket_local_endpoint 0, PF_new_inbound_slot (ep 1) (ep 2),
                       PeerImp_new peer_legacy, PeerImp_run peer_legacy]\<rparr>)
   \<and> onLegacyPeerHello env_refusing 0 [] (ep 2) OverlayImpl
       = onLegacyPeerHello env0 0 [] (ep 2) OverlayImpl"
proof -
  have le: "local_endpoint_of env0 0 = (no_error, ep 1)"
    by (simp add: env0_def)
  have sl: "new_inbound_slot_of env0 (ep 1) (ep 2) = Some 2"
    by (simp add: env0_def ep_def)
  have fresh: "map_of (m_peers OverlayImpl) 2 = None"
    by (simp add: OverlayImpl_def)
  have e2: "local_endpoint_of env_refusing = local_endpoint_of env0
            \<and> new_inbound_slot_of env_refusing = new_inbound_slot_of env0"
    by (simp add: env_refusing_def)
  note thm1 = onLegacyPeerHello_admits_unchecked
                [of env0 0 "ep 1" "ep 2" 2 OverlayImpl "[]" env_refusing]
  from thm1 le sl fresh have
    "onLegacyPeerHello env0 0 [] (ep 2) OverlayImpl =
        (let peer = \<lparr>p_id = next_id' OverlayImpl, p_slot = 2,
                      p_nodePublic = RippleAddress_unset,
                      p_remoteAddress = ep 2, p_ssl_bundle = Some 0\<rparr>
         in Inr (OverlayImpl\<lparr>m_peers := m_peers OverlayImpl @ [(2, peer)],
                   list' := fst (emplace (PeerImp_child peer) (PeerImp_child peer)
                                   (list' OverlayImpl)),
                   next_id' := next_id' OverlayImpl + 1,
                   events := events OverlayImpl @
                     [Socket_local_endpoint 0, PF_new_inbound_slot (ep 1) (ep 2),
                      PeerImp_new peer, PeerImp_run peer]\<rparr>))"
    by blast
  then have first: "onLegacyPeerHello env0 0 [] (ep 2) OverlayImpl =
     Inr (OverlayImpl\<lparr>m_peers := [(2, peer_legacy)],
            list' := [(PeerImp_child peer_legacy, PeerImp_child peer_legacy)],
            next_id' := 2,
            events := [Socket_local_endpoint 0, PF_new_inbound_slot (ep 1) (ep 2),
                       PeerImp_new peer_legacy, PeerImp_run peer_legacy]\<rparr>)"
    by (simp add: OverlayImpl_def peer_legacy_def emplace_def Let_def)
  from thm1 e2 have "onLegacyPeerHello env_refusing 0 [] (ep 2) OverlayImpl
       = onLegacyPeerHello env0 0 [] (ep 2) OverlayImpl"
    by blast
  with first show ?thesis by blast
qed

subsection \<open>The indexes of active peers\<close>

lemma emit_indexes [simp]:
  "m_shortIdMap (emit ev s) = m_shortIdMap s"
  "m_publicKeyMap (emit ev s) = m_publicKeyMap s"
  "m_peers (emit ev s) = m_peers s"
  "list' (emit ev s) = list' s"
  "next_id' (emit ev s) = next_id' s"
  "work' (emit ev s) = work' s"
  "stopping (emit ev s) = stopping s"
  by (simp_all add: emit_def)

lemma journal_indexes [simp]:
  "m_shortIdMap (journal e sev line s) = m_shortIdMap s"
  "m_publicKeyMap (journal e sev line s) = m_publicKeyMap s"
  "m_peers (journal e sev line s) = m_peers s"
  "list' (journal e sev line s) = list' s"
  "next_id' (journal e sev line s) = next_id' s"
  "work' (journal e sev line s) = work' s"
  "stopping (journal e sev line s) = stopping s"
  by (simp_all add: journal_def)

lemma add_indexes:
  "add peer s = Inr s' \<Longrightarrow>
     m_shortIdMap s' = m_shortIdMap s \<and> m_publicKeyMap s' = m_publicKeyMap s"
  by (auto simp: add_def Let_def split: prod.splits if_splits)

lemma remove_slot_indexes:
  "remove_slot sl s = Inr s' \<Longrightarrow>
     m_shortIdMap s' = m_shortIdMap s \<and> m_publicKeyMap s' = m_publicKeyMap s"
  by (auto simp: remove_slot_def split: option.splits)

lemma connect_indexes:
  "connect e r s = Inr s' \<Longrightarrow>
     m_shortIdMap s' = m_shortIdMap s \<and> m_publicKeyMap s' = m_publicKeyMap s"
  by (auto simp: connect_def Let_def split: if_splits option.splits sum.splits
           dest!: add_indexes)

lemma autoConnect_loop_indexes:
  "autoConnect_loop e addrs s = Inr s' \<Longrightarrow>
     m_shortIdMap s' = m_shortIdMap s \<and> m_publicKeyMap s' = m_publicKeyMap s"
proof (induction addrs arbitrary: s)
  case Nil
  then show ?case by simp
next
  case (Cons addr rest)
  from Cons.prems obtain s1 where c: "connect e addr s = Inr s1"
    and r: "autoConnect_loop e rest s1 = Inr s'"
    by (auto split: sum.splits)
  from connect_indexes [OF c] Cons.IH [OF r] show ?case by simp
qed

lemma sendEndpoints_entry_indexes [simp]:
  "m_shortIdMap (sendEndpoints_entry e entry s) = m_shortIdMap s"
  "m_publicKeyMap (sendEndpoints_entry e entry s) = m_publicKeyMap s"
  by (simp_all add: sendEndpoints_entry_def Let_def split: option.splits)

lemma sendEndpoints_loop_indexes [simp]:
  "m_shortIdMap (sendEndpoints_loop e plan s) = m_shortIdMap s"
  "m_publicKeyMap (sendEndpoints_loop e plan s) = m_publicKeyMap s"
  by (induction plan arbitrary: s) simp_all

lemma on_timer_indexes:
  "on_timer e ec s = Inr s' \<Longrightarrow>
     m_shortIdMap s' = m_shortIdMap s \<and> m_publicKeyMap s' = m_publicKeyMap s"
  by (auto simp: on_timer_def Let_def autoConnect_def sendEndpoints_def
           split: if_splits sum.splits dest!: autoConnect_loop_indexes)

lemma stop_indexes [simp]:
  "m_shortIdMap (stop e s) = m_shortIdMap s"
  "m_publicKeyMap (stop e s) = m_publicKeyMap s"
  by (simp_all add: stop_def stop_loop_events)

lemma onLegacyPeerHello_indexes:
  "onLegacyPeerHello e b buf r s = Inr s' \<Longrightarrow>
     m_shortIdMap s' = m_shortIdMap s \<and> m_publicKeyMap s' = m_publicKeyMap s"
  by (auto simp: onLegacyPeerHello_def Let_def
           split: prod.splits if_splits option.splits sum.splits dest!: add_indexes)

lemma onHandoff_indexes:
  "onHandoff e b request r s = Inr (h, s') \<Longrightarrow>
     m_shortIdMap s' = m_shortIdMap s \<and> m_publicKeyMap s' = m_publicKeyMap s"
  by (auto simp: onHandoff_def Let_def makeRedirectResponse_def
           split: prod.splits if_splits option.splits sum.splits dest!: add_indexes)

lemma indexes_agree_frame:
  "m_shortIdMap s' = m_shortIdMap s \<and> m_publicKeyMap s' = m_publicKeyMap s \<Longrightarrow>
     indexes_agree s' = indexes_agree s"
  by (simp add: indexes_agree_def)

lemma activate_Inr:
  assumes "activate e peer s = Inr s'"
  shows "map_of (m_shortIdMap s) (p_id peer) = None"
    and "map_of (m_publicKeyMap s) (p_nodePublic peer) = None"
    and "m_shortIdMap s' = m_shortIdMap s @ [(p_id peer, peer)]"
    and "m_publicKeyMap s' = m_publicKeyMap s @ [(p_nodePublic peer, peer)]"
  using assms
  by (auto simp: activate_def emplace_def Let_def split: option.splits if_splits)

lemma map_of_None_fst: "map_of m k = None \<Longrightarrow> k \<notin> fst ` set m"
  by (simp add: map_of_eq_None_iff)

lemma activate_indexes_agree:
  assumes inv: "indexes_agree s" and act: "activate e peer s = Inr s'"
  shows "indexes_agree s'"
proof -
  note a = activate_Inr [OF act]
  from a(1) have f1: "p_id peer \<notin> fst ` set (m_shortIdMap s)"
    by (rule map_of_None_fst)
  from a(2) have f2: "p_nodePublic peer \<notin> fst ` set (m_publicKeyMap s)"
    by (rule map_of_None_fst)
  from inv f1 f2 show ?thesis
    by (simp add: indexes_agree_def a(3) a(4))
qed

lemma erase_absent: "map_of m k = None \<Longrightarrow> erase k m = m"
  by (induction m) (auto simp: erase_def split: if_splits)

lemma erase_distinct: "distinct (map fst m) \<Longrightarrow> distinct (map fst (erase k m))"
  by (simp add: erase_def distinct_map_filter)

lemma erase_set: "set (erase k m) = {entry \<in> set m. fst entry \<noteq> k}"
  by (auto simp: erase_def)

lemma erase_length:
  "distinct (map fst m) \<Longrightarrow> map_of m k = Some v \<Longrightarrow> length (erase k m) + 1 = length m"
proof (induction m)
  case Nil
  then show ?case by simp
next
  case (Cons entry m)
  show ?case
  proof (cases "fst entry = k")
    case True
    with Cons.prems have "k \<notin> fst ` set m" by auto
    then have "map_of m k = None" by (simp add: map_of_eq_None_iff)
    then have "erase k m = m" by (rule erase_absent)
    with True show ?thesis by (simp add: erase_def)
  next
    case False
    with Cons.prems have "distinct (map fst m)" and "map_of m k = Some v"
      by (auto split: if_splits)
    from Cons.IH [OF this] False show ?thesis by (simp add: erase_def)
  qed
qed

lemma deactivate_absent:
  "map_of (m_shortIdMap s) ident = None \<Longrightarrow> map_of (m_publicKeyMap s) publicKey = None \<Longrightarrow>
     onPeerDeactivate ident publicKey s = s"
  by (simp add: onPeerDeactivate_def Let_def erase_absent)

lemma deactivate_indexes_agree:
  assumes inv: "indexes_agree s" and ok: "deactivate_names_peer s ident publicKey"
  shows "indexes_agree (onPeerDeactivate ident publicKey s)"
proof (cases "map_of (m_shortIdMap s) ident")
  case None
  with ok have "map_of (m_publicKeyMap s) publicKey = None"
    by (simp add: deactivate_names_peer_def)
  with None inv show ?thesis by (simp add: deactivate_absent)
next
  case (Some p)
  with ok have key: "p_nodePublic p = publicKey"
    by (simp add: deactivate_names_peer_def)
  from Some have mem: "(ident, p) \<in> set (m_shortIdMap s)"
    by (rule map_of_SomeD)
  with inv have pid: "p_id p = ident"
    by (auto simp: indexes_agree_def)
  have same: "snd ` set (m_shortIdMap s) = snd ` set (m_publicKeyMap s)"
    using inv by (simp add: indexes_agree_def)
  have own_id: "\<forall>entry \<in> set (m_shortIdMap s). p_id (snd entry) = fst entry"
    using inv by (simp add: indexes_agree_def)
  have own_key: "\<forall>entry \<in> set (m_publicKeyMap s). p_nodePublic (snd entry) = fst entry"
    using inv by (simp add: indexes_agree_def)
  have d1: "distinct (map fst (m_shortIdMap s))" and d2: "distinct (map fst (m_publicKeyMap s))"
    using inv by (simp_all add: indexes_agree_def)
  have ids: "snd ` set (erase ident (m_shortIdMap s)) = snd ` set (m_shortIdMap s) - {p}"
  proof (rule set_eqI, rule iffI)
    fix q assume "q \<in> snd ` set (erase ident (m_shortIdMap s))"
    then obtain i where iq: "(i, q) \<in> set (m_shortIdMap s)" and ne: "i \<noteq> ident"
      by (auto simp: erase_set)
    from iq own_id have "p_id q = i" by auto
    with ne pid have "q \<noteq> p" by auto
    with iq show "q \<in> snd ` set (m_shortIdMap s) - {p}" by force
  next
    fix q assume "q \<in> snd ` set (m_shortIdMap s) - {p}"
    then obtain i where iq: "(i, q) \<in> set (m_shortIdMap s)" and ne: "q \<noteq> p"
      by auto
    have "i \<noteq> ident"
    proof
      assume "i = ident"
      with iq have "(ident, q) \<in> set (m_shortIdMap s)" by simp
      from eq_key_imp_eq_value [OF d1 this mem] have "q = p" .
      with ne show False by simp
    qed
    with iq show "q \<in> snd ` set (erase ident (m_shortIdMap s))"
      by (force simp: erase_set)
  qed
  from mem have "p \<in> snd ` set (m_shortIdMap s)" by force
  with same have "p \<in> snd ` set (m_publicKeyMap s)" by simp
  then obtain k where kp: "(k, p) \<in> set (m_publicKeyMap s)" by auto
  with own_key key have kpub: "k = publicKey" by auto
  have keys: "snd ` set (erase publicKey (m_publicKeyMap s)) = snd ` set (m_publicKeyMap s) - {p}"
  proof (rule set_eqI, rule iffI)
    fix q assume "q \<in> snd ` set (erase publicKey (m_publicKeyMap s))"
    then obtain k' where kq: "(k', q) \<in> set (m_publicKeyMap s)" and ne: "k' \<noteq> publicKey"
      by (auto simp: erase_set)
    from kq own_key have "p_nodePublic q = k'" by auto
    with ne key have "q \<noteq> p" by auto
    with kq show "q \<in> snd ` set (m_publicKeyMap s) - {p}" by force
  next
    fix q assume "q \<in> snd ` set (m_publicKeyMap s) - {p}"
    then obtain k' where kq: "(k', q) \<in> set (m_publicKeyMap s)" and ne: "q \<noteq> p"
      by auto
    have "k' \<noteq> publicKey"
    proof
      assume "k' = publicKey"
      with kq have "(publicKey, q) \<in> set (m_publicKeyMap s)" by simp
      moreover from kp kpub have "(publicKey, p) \<in> set (m_publicKeyMap s)" by simp
      ultimately have "q = p" by (rule eq_key_imp_eq_value [OF d2])
      with ne show False by simp
    qed
    with kq show "q \<in> snd ` set (erase publicKey (m_publicKeyMap s))"
      by (force simp: erase_set)
  qed
  from own_id have o1: "\<forall>entry \<in> set (erase ident (m_shortIdMap s)). p_id (snd entry) = fst entry"
    by (simp add: erase_set)
  from own_key have o2:
    "\<forall>entry \<in> set (erase publicKey (m_publicKeyMap s)). p_nodePublic (snd entry) = fst entry"
    by (simp add: erase_set)
  from erase_distinct [OF d1] erase_distinct [OF d2] o1 o2 ids keys same
  show ?thesis
    by (simp add: indexes_agree_def onPeerDeactivate_def Let_def)
qed

lemma deactivate_active_size:
  assumes inv: "indexes_agree s" and act: "map_of (m_shortIdMap s) ident = Some p"
  shows "size_overlay (onPeerDeactivate ident (p_nodePublic p) s) + 1 = size_overlay s"
proof -
  from act have mem: "(ident, p) \<in> set (m_shortIdMap s)"
    by (rule map_of_SomeD)
  from inv have same: "snd ` set (m_shortIdMap s) = snd ` set (m_publicKeyMap s)"
    and own_key: "\<forall>entry \<in> set (m_publicKeyMap s). p_nodePublic (snd entry) = fst entry"
    and d2: "distinct (map fst (m_publicKeyMap s))"
    by (simp_all add: indexes_agree_def)
  from mem have "p \<in> snd ` set (m_shortIdMap s)" by force
  with same have "p \<in> snd ` set (m_publicKeyMap s)" by simp
  then obtain k where kp: "(k, p) \<in> set (m_publicKeyMap s)" by auto
  with own_key have "k = p_nodePublic p" by auto
  with kp d2 have "map_of (m_publicKeyMap s) (p_nodePublic p) = Some p"
    by simp
  from erase_length [OF d2 this] show ?thesis
    by (simp add: size_overlay_def onPeerDeactivate_def Let_def)
qed

lemma activate_size:
  "activate e peer s = Inr s' \<Longrightarrow> size_overlay s' = size_overlay s + 1"
  by (simp add: size_overlay_def activate_Inr(4))

lemma exec_indexes_agree:
  assumes inv: "indexes_agree s" and ok: "call_names_peer c s" and ex: "exec e c s = Inr s'"
  shows "indexes_agree s'"
proof (cases c)
  case (Call_activate peer)
  with ex have "activate e peer s = Inr s'" by simp
  from activate_indexes_agree [OF inv this] show ?thesis .
next
  case (Call_onPeerDeactivate ident publicKey)
  with ex have s': "s' = onPeerDeactivate ident publicKey s" by simp
  from Call_onPeerDeactivate ok have "deactivate_names_peer s ident publicKey" by simp
  from deactivate_indexes_agree [OF inv this] s' show ?thesis by simp
next
  case (Call_remove sl)
  with ex have "remove_slot sl s = Inr s'" by simp
  from remove_slot_indexes [OF this] have "indexes_agree s' = indexes_agree s"
    by (rule indexes_agree_frame)
  with inv show ?thesis by simp
next
  case (Call_connect r)
  with ex have "connect e r s = Inr s'" by simp
  from connect_indexes [OF this] have "indexes_agree s' = indexes_agree s"
    by (rule indexes_agree_frame)
  with inv show ?thesis by simp
next
  case (Call_onLegacyPeerHello b buf r)
  with ex have "onLegacyPeerHello e b buf r s = Inr s'" by simp
  from onLegacyPeerHello_indexes [OF this] have "indexes_agree s' = indexes_agree s"
    by (rule indexes_agree_frame)
  with inv show ?thesis by simp
next
  case (Call_onHandoff b request r)
  with ex obtain h where "onHandoff e b request r s = Inr (h, s')"
    by (auto split: sum.splits)
  from onHandoff_indexes [OF this] have "indexes_agree s' = indexes_agree s"
    by (rule indexes_agree_frame)
  with inv show ?thesis by simp
next
  case (Call_on_timer ec)
  with ex have "on_timer e ec s = Inr s'" by simp
  from on_timer_indexes [OF this] have "indexes_agree s' = indexes_agree s"
    by (rule indexes_agree_frame)
  with inv show ?thesis by simp
next
  case Call_stop
  with ex have s': "s' = stop e s" by simp
  have "indexes_agree (stop e s) = indexes_agree s"
    by (rule indexes_agree_frame) simp
  with inv s' show ?thesis by simp
qed

lemma run_indexes_agree:
  "indexes_agree s \<Longrightarrow> deactivations_name_peers cs s \<Longrightarrow> run cs s = Inr s' \<Longrightarrow>
     indexes_agree s'"
proof (induction cs arbitrary: s)
  case Nil
  then show ?case by simp
next
  case (Cons c cs)
  from Cons.prems(3) obtain s1 where e1: "exec (fst c) (snd c) s = Inr s1"
    and r1: "run cs s1 = Inr s'"
    by (auto split: sum.splits)
  from Cons.prems(2) e1 have ok: "call_names_peer (snd c) s"
    and rest: "deactivations_name_peers cs s1"
    by simp_all
  from exec_indexes_agree [OF Cons.prems(1) ok e1] have "indexes_agree s1" .
  from Cons.IH [OF this rest r1] show ?case .
qed

lemma OverlayImpl_indexes_agree: "indexes_agree OverlayImpl"
  by (simp add: indexes_agree_def OverlayImpl_def)

lemma indexes_agree_length:
  assumes "indexes_agree s"
  shows "length (m_shortIdMap s) = length (m_publicKeyMap s)"
proof -
  from assms have d1: "distinct (map fst (m_shortIdMap s))"
    and d2: "distinct (map fst (m_publicKeyMap s))"
    and o1: "\<forall>entry \<in> set (m_shortIdMap s). p_id (snd entry) = fst entry"
    and o2: "\<forall>entry \<in> set (m_publicKeyMap s). p_nodePublic (snd entry) = fst entry"
    and same: "snd ` set (m_shortIdMap s) = snd ` set (m_publicKeyMap s)"
    by (simp_all add: indexes_agree_def)
  have i1: "inj_on snd (set (m_shortIdMap s))"
  proof (rule inj_onI)
    fix x y
    assume x: "x \<in> set (m_shortIdMap s)" and y: "y \<in> set (m_shortIdMap s)"
      and eq: "snd x = snd y"
    from o1 x y have "fst x = p_id (snd x)" and "fst y = p_id (snd y)" by auto
    with eq show "x = y" by (simp add: prod_eq_iff)
  qed
  have i2: "inj_on snd (set (m_publicKeyMap s))"
  proof (rule inj_onI)
    fix x y
    assume x: "x \<in> set (m_publicKeyMap s)" and y: "y \<in> set (m_publicKeyMap s)"
      and eq: "snd x = snd y"
    from o2 x y have "fst x = p_nodePublic (snd x)" and "fst y = p_nodePublic (snd y)" by auto
    with eq show "x = y" by (simp add: prod_eq_iff)
  qed
  from d1 have "distinct (m_shortIdMap s)" by (simp add: distinct_map)
  then have l1: "length (m_shortIdMap s) = card (set (m_shortIdMap s))"
    by (simp add: distinct_card)
  from d2 have "distinct (m_publicKeyMap s)" by (simp add: distinct_map)
  then have l2: "length (m_publicKeyMap s) = card (set (m_publicKeyMap s))"
    by (simp add: distinct_card)
  from i1 have "card (snd ` set (m_shortIdMap s)) = card (set (m_shortIdMap s))"
    by (rule card_image)
  moreover from i2 have "card (snd ` set (m_publicKeyMap s)) = card (set (m_publicKeyMap s))"
    by (rule card_image)
  ultimately show ?thesis using l1 l2 same by simp
qed

text \<open>
  C1, as stated, fails for a deactivation that does not name a registered peer.  A peer
  that deactivates twice leaves \<open>size\<close> at 0 the second time instead of decreasing
  it; and a deactivation with an unregistered id and the key of a registered peer erases
  from one index only, after which the two indexes hold different peers.
\<close>
theorem deactivate_counterexample:
  "activate env0 peerA OverlayImpl = Inr overlay_A
   \<and> size_overlay overlay_A = 1
   \<and> size_overlay (onPeerDeactivate 1 ''n9KeyA'' overlay_A) = 0
   \<and> size_overlay (onPeerDeactivate 1 ''n9KeyA'' (onPeerDeactivate 1 ''n9KeyA'' overlay_A)) = 0
   \<and> m_shortIdMap (onPeerDeactivate 3 ''n9KeyA'' overlay_A) = [(1, peerA)]
   \<and> m_publicKeyMap (onPeerDeactivate 3 ''n9KeyA'' overlay_A) = []"
  by (simp add: activate_def onPeerDeactivate_def overlay_A_def OverlayImpl_def emplace_def
                erase_def size_overlay_def journal_def env0_def peerA_def Let_def)

text \<open>
  C1, amended.  Take any run of the entry points on a new manager in which every
  deactivation names one peer: its id is registered for a peer with its key, or neither
  its id nor its key is registered.  In the state reached, \<open>m_shortIdMap\<close> and
  \<open>m_publicKeyMap\<close> hold exactly the same peers and have the same number of entries,
  and \<open>size\<close> is the number of entries of \<open>m_publicKeyMap\<close> (\<open>m_peers\<close> plays no
  part).  \<open>size\<close> is 0 in a new manager; from the state reached, an activation that
  returns increases it by exactly 1, the deactivation of a registered peer decreases
  it by exactly 1, and the deactivation of an unregistered id and key changes nothing.
\<close>
theorem indexes_hold_same_peers:
  assumes ok: "deactivations_name_peers cs OverlayImpl"
    and reached: "run cs OverlayImpl = Inr s"
  shows "snd ` set (m_shortIdMap s) = snd ` set (m_publicKeyMap s)
     \<and> length (m_shortIdMap s) = length (m_publicKeyMap s)
     \<and> size_overlay s = length (m_publicKeyMap s)
     \<and> size_overlay OverlayImpl = 0
     \<and> (\<forall>e peer s'. activate e peer s = Inr s' \<longrightarrow> size_overlay s' = size_overlay s + 1)
     \<and> (\<forall>ident p. map_of (m_shortIdMap s) ident = Some p \<longrightarrow>
           size_overlay (onPeerDeactivate ident (p_nodePublic p) s) + 1 = size_overlay s)
     \<and> (\<forall>ident publicKey.
           map_of (m_shortIdMap s) ident = None \<and> map_of (m_publicKeyMap s) publicKey = None
           \<longrightarrow> onPeerDeactivate ident publicKey s = s)"
proof -
  from run_indexes_agree [OF OverlayImpl_indexes_agree ok reached]
  have inv: "indexes_agree s" .
  then have same: "snd ` set (m_shortIdMap s) = snd ` set (m_publicKeyMap s)"
    by (simp add: indexes_agree_def)
  have len: "length (m_shortIdMap s) = length (m_publicKeyMap s)"
    using inv by (rule indexes_agree_length)
  have sz: "size_overlay s = length (m_publicKeyMap s)"
    by (simp add: size_overlay_def)
  have zero: "size_overlay OverlayImpl = 0"
    by (simp add: size_overlay_def OverlayImpl_def)
  have up: "\<forall>e peer s'. activate e peer s = Inr s' \<longrightarrow> size_overlay s' = size_overlay s + 1"
    by (simp add: activate_size)
  have down: "\<forall>ident p. map_of (m_shortIdMap s) ident = Some p \<longrightarrow>
           size_overlay (onPeerDeactivate ident (p_nodePublic p) s) + 1 = size_overlay s"
    using deactivate_active_size [OF inv] by blast
  have noop: "\<forall>ident publicKey.
           map_of (m_shortIdMap s) ident = None \<and> map_of (m_publicKeyMap s) publicKey = None
           \<longrightarrow> onPeerDeactivate ident publicKey s = s"
    by (simp add: deactivate_absent)
  from same len sz zero up down noop show ?thesis by blast
qed

lemma run_calls0: "run calls0 OverlayImpl = Inr overlay_calls0"
  by (simp add: calls0_def overlay_calls0_def OverlayImpl_def connect_def add_def
                activate_def onPeerDeactivate_def emplace_def erase_def emit_def journal_def
                size_overlay_def env0_def ep_def peerA_def peerB_def peer_out_def Let_def)

lemma run_calls1: "run calls1 OverlayImpl = Inr overlay_calls1"
  by (simp add: calls1_def calls0_def overlay_calls1_def overlay_calls0_def OverlayImpl_def
                connect_def add_def activate_def onPeerDeactivate_def emplace_def erase_def
                emit_def journal_def size_overlay_def env0_def ep_def peerA_def peerB_def
                peer_out_def peer_out6_def Let_def)

lemma names_calls1: "deactivations_name_peers calls1 OverlayImpl"
  by (simp add: calls1_def calls0_def OverlayImpl_def connect_def add_def
                deactivate_names_peer_def activate_def onPeerDeactivate_def emplace_def
                erase_def emit_def journal_def size_overlay_def env0_def ep_def peerA_def
                peerB_def peer_out_def Let_def)

theorem indexes_hold_same_peers_witness:
  "deactivations_name_peers calls1 OverlayImpl
   \<and> run calls1 OverlayImpl = Inr overlay_calls1
   \<and> snd ` set (m_shortIdMap overlay_calls1) = snd ` set (m_publicKeyMap overlay_calls1)
   \<and> size_overlay overlay_calls1 = 1
   \<and> length (m_peers overlay_calls1) = 2
   \<and> size_overlay (onPeerDeactivate 2 (p_nodePublic peerB) overlay_calls1) + 1
       = size_overlay overlay_calls1
   \<and> onPeerDeactivate 1 ''n9KeyA'' overlay_calls1 = overlay_calls1"
proof -
  note t = indexes_hold_same_peers [OF names_calls1 run_calls1]
  have reg: "map_of (m_shortIdMap overlay_calls1) 2 = Some peerB"
    by (simp add: overlay_calls1_def overlay_calls0_def)
  have unreg: "map_of (m_shortIdMap overlay_calls1) 1 = None
               \<and> map_of (m_publicKeyMap overlay_calls1) ''n9KeyA'' = None"
    by (simp add: overlay_calls1_def overlay_calls0_def)
  have keys: "length (m_publicKeyMap overlay_calls1) = 1"
    and slots: "length (m_peers overlay_calls1) = 2"
    by (simp_all add: overlay_calls1_def overlay_calls0_def)
  from t reg have "size_overlay (onPeerDeactivate 2 (p_nodePublic peerB) overlay_calls1) + 1
       = size_overlay overlay_calls1"
    by blast
  moreover from t unreg have "onPeerDeactivate 1 ''n9KeyA'' overlay_calls1 = overlay_calls1"
    by blast
  moreover from t have
    "snd ` set (m_shortIdMap overlay_calls1) = snd ` set (m_publicKeyMap overlay_calls1)"
    by blast
  moreover from t keys have "size_overlay overlay_calls1 = 1"
    by simp
  ultimately show ?thesis using names_calls1 run_calls1 slots by blast
qed

subsection \<open>The assertions of the registry\<close>












subsection \<open>The timer tick\<close>

lemma sendEndpoints_entry_frame [simp]:
  "m_peers (sendEndpoints_entry e entry s) = m_peers s"
  "work' (sendEndpoints_entry e entry s) = work' s"
  by (simp_all add: sendEndpoints_entry_def Let_def split: option.splits)

lemma sendEndpoints_loop_frame [simp]:
  "m_peers (sendEndpoints_loop e plan s) = m_peers s"
  "work' (sendEndpoints_loop e plan s) = work' s"
  by (induction plan arbitrary: s) simp_all

lemma sendEndpoints_entry_events:
  "\<exists>xs. events (sendEndpoints_entry e entry s) = events s @ xs
        \<and> (\<forall>ev \<in> set xs. sendEndpoints_event ev)"
  by (auto simp: sendEndpoints_entry_def Let_def emit_def split: option.splits)

lemma sendEndpoints_loop_events:
  "\<exists>xs. events (sendEndpoints_loop e plan s) = events s @ xs
        \<and> (\<forall>ev \<in> set xs. sendEndpoints_event ev)"
proof (induction plan arbitrary: s)
  case Nil
  then show ?case by simp
next
  case (Cons entry plan)
  from sendEndpoints_entry_events [of e entry s] obtain xs
    where xs: "events (sendEndpoints_entry e entry s) = events s @ xs"
      and xs_ok: "\<forall>ev \<in> set xs. sendEndpoints_event ev"
    by blast
  from Cons.IH [of "sendEndpoints_entry e entry s"] obtain ys
    where ys: "events (sendEndpoints_loop e plan (sendEndpoints_entry e entry s))
                 = events (sendEndpoints_entry e entry s) @ ys"
      and ys_ok: "\<forall>ev \<in> set ys. sendEndpoints_event ev"
    by blast
  from xs ys have "events (sendEndpoints_loop e (entry # plan) s) = events s @ (xs @ ys)"
    by simp
  moreover from xs_ok ys_ok have "\<forall>ev \<in> set (xs @ ys). sendEndpoints_event ev"
    by auto
  ultimately show ?case by blast
qed

lemma connect_events:
  assumes "connect e r s = Inr s'"
  shows "\<exists>ys. events s' = events s @ ys \<and> (\<forall>ev \<in> set ys. connect_event ev)"
  using assms
  by (auto simp: connect_def add_def emplace_def Let_def emit_def
           split: if_splits option.splits sum.splits prod.splits)

lemma autoConnect_loop_events:
  "autoConnect_loop e addrs s = Inr s' \<Longrightarrow>
     \<exists>ys. events s' = events s @ ys \<and> (\<forall>ev \<in> set ys. connect_event ev)"
proof (induction addrs arbitrary: s)
  case Nil
  then show ?case by simp
next
  case (Cons addr rest)
  from Cons.prems obtain s1 where c: "connect e addr s = Inr s1"
    and r: "autoConnect_loop e rest s1 = Inr s'"
    by (auto split: sum.splits)
  from connect_events [OF c] obtain xs
    where xs: "events s1 = events s @ xs" and xs_ok: "\<forall>ev \<in> set xs. connect_event ev"
    by blast
  from Cons.IH [OF r] obtain ys
    where ys: "events s' = events s1 @ ys" and ys_ok: "\<forall>ev \<in> set ys. connect_event ev"
    by blast
  from xs ys have "events s' = events s @ (xs @ ys)" by simp
  moreover from xs_ok ys_ok have "\<forall>ev \<in> set (xs @ ys). connect_event ev" by auto
  ultimately show ?case by blast
qed

lemma connect_returns:
  assumes w: "work' s"
    and fresh: "\<forall>sl. new_outbound_slot_of e r = Some sl \<longrightarrow> sl \<notin> fst ` set (m_peers s)"
  shows "\<exists>s'. connect e r s = Inr s' \<and> work' s'
              \<and> fst ` set (m_peers s') = fst ` set (m_peers s) \<union> set (outbound_slots e [r])"
proof (cases "new_outbound_slot_of e r")
  case None
  with w show ?thesis
    by (simp add: connect_def Let_def outbound_slots_def List.map_filter_simps)
next
  case (Some sl)
  with fresh have "sl \<notin> fst ` set (m_peers s)" by simp
  then have "map_of (m_peers s) sl = None" by (simp add: map_of_eq_None_iff)
  with w Some show ?thesis
    by (simp add: connect_def Let_def add_def emplace_def emit_def outbound_slots_def
                  List.map_filter_simps)
qed

lemma outbound_slots_Cons:
  "outbound_slots e (r # rest) = outbound_slots e [r] @ outbound_slots e rest"
  by (simp add: outbound_slots_def List.map_filter_simps split: option.splits)

lemma autoConnect_loop_returns:
  "work' s \<Longrightarrow> distinct (outbound_slots e addrs) \<Longrightarrow>
   set (outbound_slots e addrs) \<inter> fst ` set (m_peers s) = {} \<Longrightarrow>
     \<exists>s'. autoConnect_loop e addrs s = Inr s'"
proof (induction addrs arbitrary: s)
  case Nil
  then show ?case by simp
next
  case (Cons r rest)
  note split = outbound_slots_Cons [of e r rest]
  have fresh: "\<forall>sl. new_outbound_slot_of e r = Some sl \<longrightarrow> sl \<notin> fst ` set (m_peers s)"
  proof (intro allI impI)
    fix sl
    assume "new_outbound_slot_of e r = Some sl"
    then have "sl \<in> set (outbound_slots e (r # rest))"
      by (simp add: outbound_slots_def List.map_filter_simps)
    with Cons.prems(3) show "sl \<notin> fst ` set (m_peers s)"
      by blast
  qed
  from connect_returns [OF Cons.prems(1) fresh] obtain s1
    where c: "connect e r s = Inr s1" and w1: "work' s1"
      and p1: "fst ` set (m_peers s1) = fst ` set (m_peers s) \<union> set (outbound_slots e [r])"
    by blast
  from Cons.prems(2) split have d: "distinct (outbound_slots e rest)"
    and disj: "set (outbound_slots e [r]) \<inter> set (outbound_slots e rest) = {}"
    by auto
  from Cons.prems(3) split disj p1
  have "set (outbound_slots e rest) \<inter> fst ` set (m_peers s1) = {}"
    by auto
  from Cons.IH [OF w1 d this] obtain s' where "autoConnect_loop e rest s1 = Inr s'"
    by blast
  with c show ?case by simp
qed

text \<open>
  C7, as stated, fails for a tick that fires with an error other than cancellation
  while the manager is not stopping: the tick is neither cancelled nor stopping, and
  none of the actions runs.
\<close>
theorem on_timer_error_counterexample:
  "other_error 9 \<noteq> operation_aborted
   \<and> \<not> stopping overlay_calls0
   \<and> on_timer env_tick (other_error 9) overlay_calls0 = Inr overlay_calls0"
  by (simp add: on_timer_def overlay_calls0_def OverlayImpl_def journal_def env_tick_def
                env0_def)

text \<open>
  C7, amended.  A tick that fires without an error while the manager is not stopping,
  when it returns, has appended to the trace, in this order: the PeerFinder's
  \<open>once_per_second\<close>; the request for the endpoint plan followed by nothing but the
  sending of endpoints to peers; the request for the addresses to connect to followed by
  nothing but the calls of \<open>connect\<close>; and the timer set to expire one second later
  and waited on again.  It does return, rather than abort on an assertion of
  \<open>connect\<close>, when the work token is present and the slots the PeerFinder grants for
  the addresses differ from one another and from the slots in \<open>m_peers\<close>.  A tick that
  fires with an error, or while the manager is stopping, returns with the state as it
  was, apart from one line in the journal when the error is not the cancellation and
  the error stream is active: none of the actions runs and the timer is not set again.
\<close>
theorem on_timer_tick:
  "(ec = no_error \<and> \<not> stopping s \<and> on_timer e ec s = Inr s' \<longrightarrow>
      (\<exists>xs ys. events s' = events s @ [PF_once_per_second]
                   @ (PF_buildEndpointsForPeers # xs)
                   @ (PF_autoconnect # ys)
                   @ [Timer_expires_from_now 1, Timer_async_wait]
               \<and> (\<forall>ev \<in> set xs. sendEndpoints_event ev)
               \<and> (\<forall>ev \<in> set ys. connect_event ev)))
   \<and> (ec = no_error \<and> \<not> stopping s \<and> work' s
       \<and> distinct (outbound_slots e (autoconnect_of e))
       \<and> set (outbound_slots e (autoconnect_of e)) \<inter> fst ` set (m_peers s) = {} \<longrightarrow>
      (\<exists>s2. on_timer e ec s = Inr s2))
   \<and> (ec \<noteq> no_error \<or> stopping s \<longrightarrow>
      on_timer e ec s =
        Inr (if ec \<noteq> no_error \<and> ec \<noteq> operation_aborted \<and> journal_active e kError
             then emit (Journal kError (Msg_on_timer ec)) s
             else s))"
proof -
  let ?s1 = "emit PF_once_per_second s"
  let ?s2 = "sendEndpoints e ?s1"
  have run_eq: "on_timer e ec s =
      (case autoConnect e ?s2 of
         Inl a \<Rightarrow> Inl a
       | Inr s3 \<Rightarrow> Inr (emit Timer_async_wait (emit (Timer_expires_from_now 1) s3)))"
    if "ec = no_error" and "\<not> stopping s"
    using that by (simp add: on_timer_def Let_def)
  have order: "\<exists>xs ys. events s' = events s @ [PF_once_per_second]
                   @ (PF_buildEndpointsForPeers # xs)
                   @ (PF_autoconnect # ys)
                   @ [Timer_expires_from_now 1, Timer_async_wait]
               \<and> (\<forall>ev \<in> set xs. sendEndpoints_event ev)
               \<and> (\<forall>ev \<in> set ys. connect_event ev)"
    if ok: "ec = no_error" "\<not> stopping s" and ret: "on_timer e ec s = Inr s'"
  proof -
    from run_eq [OF ok] ret obtain s3 where ac: "autoConnect e ?s2 = Inr s3"
      and s': "s' = emit Timer_async_wait (emit (Timer_expires_from_now 1) s3)"
      by (auto split: sum.splits)
    from sendEndpoints_loop_events
           [of e "buildEndpointsForPeers_of e" "emit PF_buildEndpointsForPeers ?s1"]
    obtain xs where xs: "events ?s2 = events s @ [PF_once_per_second]
                            @ (PF_buildEndpointsForPeers # xs)"
      and xs_ok: "\<forall>ev \<in> set xs. sendEndpoints_event ev"
      by (auto simp: sendEndpoints_def emit_def)
    from ac have "autoConnect_loop e (autoconnect_of e) (emit PF_autoconnect ?s2) = Inr s3"
      by (simp add: autoConnect_def)
    from autoConnect_loop_events [OF this]
    obtain ys where ys: "events s3 = events ?s2 @ (PF_autoconnect # ys)"
      and ys_ok: "\<forall>ev \<in> set ys. connect_event ev"
      by (auto simp: emit_def)
    from s' xs ys have "events s' = events s @ [PF_once_per_second]
                   @ (PF_buildEndpointsForPeers # xs)
                   @ (PF_autoconnect # ys)
                   @ [Timer_expires_from_now 1, Timer_async_wait]"
      by (simp add: emit_def)
    with xs_ok ys_ok show ?thesis by blast
  qed
  have returns: "\<exists>s2. on_timer e ec s = Inr s2"
    if ok: "ec = no_error" "\<not> stopping s" and w: "work' s"
      and d: "distinct (outbound_slots e (autoconnect_of e))"
      and fresh: "set (outbound_slots e (autoconnect_of e)) \<inter> fst ` set (m_peers s) = {}"
  proof -
    let ?s3 = "emit PF_autoconnect ?s2"
    from w have w3: "work' ?s3"
      by (simp add: sendEndpoints_def)
    from fresh have f3:
      "set (outbound_slots e (autoconnect_of e)) \<inter> fst ` set (m_peers ?s3) = {}"
      by (simp add: sendEndpoints_def)
    from autoConnect_loop_returns [OF w3 d f3] obtain s4
      where "autoConnect e ?s2 = Inr s4"
      by (auto simp: autoConnect_def)
    with run_eq [OF ok] show ?thesis by simp
  qed
  have skipped: "on_timer e ec s =
        Inr (if ec \<noteq> no_error \<and> ec \<noteq> operation_aborted \<and> journal_active e kError
             then emit (Journal kError (Msg_on_timer ec)) s
             else s)"
    if "ec \<noteq> no_error \<or> stopping s"
    using that by (auto simp: on_timer_def journal_def)
  from order returns skipped show ?thesis by blast
qed

theorem on_timer_tick_witness:
  "on_timer env_tick no_error overlay_calls0 = Inr overlay_ticked
   \<and> (\<exists>xs ys. events overlay_ticked = events overlay_calls0 @ [PF_once_per_second]
                   @ (PF_buildEndpointsForPeers # xs)
                   @ (PF_autoconnect # ys)
                   @ [Timer_expires_from_now 1, Timer_async_wait]
               \<and> (\<forall>ev \<in> set xs. sendEndpoints_event ev)
               \<and> (\<forall>ev \<in> set ys. connect_event ev))
   \<and> on_timer env_tick operation_aborted overlay_calls0 = Inr overlay_calls0"
proof -
  have ret: "on_timer env_tick no_error overlay_calls0 = Inr overlay_ticked"
    by (simp add: on_timer_def sendEndpoints_def sendEndpoints_entry_def autoConnect_def
                  connect_def add_def emplace_def emit_def Let_def
                  overlay_calls0_def overlay_ticked_def OverlayImpl_def env_tick_def env0_def
                  ep_def peer_out_def peer_9_def)
  have ns: "\<not> stopping overlay_calls0"
    by (simp add: overlay_calls0_def OverlayImpl_def)
  have w: "work' overlay_calls0"
    by (simp add: overlay_calls0_def OverlayImpl_def)
  have slots: "outbound_slots env_tick (autoconnect_of env_tick) = [9]"
    by (simp add: outbound_slots_def List.map_filter_simps env_tick_def env0_def ep_def)
  have peers: "fst ` set (m_peers overlay_calls0) = {5}"
    by (simp add: overlay_calls0_def)
  note tick = on_timer_tick [of no_error overlay_calls0 env_tick overlay_ticked]
  from tick ns ret have order:
    "\<exists>xs ys. events overlay_ticked = events overlay_calls0 @ [PF_once_per_second]
                   @ (PF_buildEndpointsForPeers # xs)
                   @ (PF_autoconnect # ys)
                   @ [Timer_expires_from_now 1, Timer_async_wait]
               \<and> (\<forall>ev \<in> set xs. sendEndpoints_event ev)
               \<and> (\<forall>ev \<in> set ys. connect_event ev)"
    by blast
  from tick ns w slots peers have "\<exists>s2. on_timer env_tick no_error overlay_calls0 = Inr s2"
    by simp
  from on_timer_tick [of operation_aborted overlay_calls0 env_tick overlay_ticked]
  have "on_timer env_tick operation_aborted overlay_calls0 = Inr overlay_calls0"
    by simp
  with ret order show ?thesis by blast
qed

end
